theory Spec2Isabelle
  imports Main
begin

section \<open>Numbers\<close>

text \<open>
  The bulk count is read with \<open>parseInt\<close> from text that the user types, so it can be
  any integer that a double holds, or an infinity, and \<open>parseInt\<close> can also give
  \<open>NaN\<close>. These are the values of \<open>number\<close>. \<open>Finite k\<close> is the double whose value is the
  integer \<open>k\<close>; negative zero is not told apart from zero, since no comparison, sum or
  display in the component tells them apart.

  Identifiers, page numbers, row offsets and set sizes are small integers, far below
  \<open>2^53\<close>, where doubles are exact: they are modelled as \<open>int\<close> and \<open>nat\<close>.
\<close>

datatype number = NaN | NegInfinity | Finite int | Infinity

text \<open>The number of binary digits of a positive integer.\<close>

function bitLength :: "int \<Rightarrow> nat" where
  "bitLength n = (if n \<le> 0 then 0 else Suc (bitLength (n div 2)))"
  by pat_completeness auto
termination
  by (relation "measure nat") auto

declare bitLength.simps [simp del]

definition mantissaLimit :: int where
  "mantissaLimit = 2 ^ 53"

definition doubleLimit :: int where
  "doubleLimit = 2 ^ 1024"

text \<open>The double nearest to a non-negative integer \<open>m\<close>: integers below \<open>2^53\<close> are
  exact; a longer one keeps its leading 53 binary digits, rounded to nearest with ties
  to the even mantissa; a result of \<open>2^1024\<close> or more is beyond the range (\<open>None\<close>).\<close>

definition roundMagnitude :: "int \<Rightarrow> int option" where
  "roundMagnitude m =
     (if m < mantissaLimit then Some m
      else (let e = bitLength m - 53;
                q = m div 2 ^ e;
                r = m mod 2 ^ e;
                half = 2 ^ (e - 1);
                q' = (if half < r then q + 1
                      else if r = half \<and> odd q then q + 1
                      else q);
                v = q' * 2 ^ e
            in if doubleLimit \<le> v then None else Some v))"

text \<open>The Number value of a mathematical integer.\<close>

definition toNumber :: "int \<Rightarrow> number" where
  "toNumber k =
     (if 0 \<le> k
      then (case roundMagnitude k of None \<Rightarrow> Infinity | Some v \<Rightarrow> Finite v)
      else (case roundMagnitude (- k) of None \<Rightarrow> NegInfinity | Some v \<Rightarrow> Finite (- v)))"

text \<open>The operator \<open><\<close> on numbers: false whenever an operand is \<open>NaN\<close>.\<close>

fun numLess :: "number \<Rightarrow> number \<Rightarrow> bool" where
  "numLess NaN y = False"
| "numLess x NaN = False"
| "numLess (Finite a) (Finite b) = (a < b)"
| "numLess x NegInfinity = False"
| "numLess NegInfinity y = True"
| "numLess Infinity y = False"
| "numLess (Finite a) Infinity = True"

definition isNaN :: "number \<Rightarrow> bool" where
  "isNaN x = (x = NaN)"

text \<open>\<open>x + n\<close> for a number \<open>x\<close> and a small integer \<open>n\<close> (\<open>x - n\<close> is \<open>x + (-n)\<close>): the
  exact sum, rounded.\<close>

fun numAdd :: "number \<Rightarrow> int \<Rightarrow> number" where
  "numAdd (Finite k) n = toNumber (k + n)"
| "numAdd x n = x"

section \<open>The selection state of the artwork table\<close>

text \<open>
  The component \<open>App\<close> keeps its state in React hooks. The record below has one field
  per hook that the selection logic reads or writes. A row of the table is an
  \<open>Artwork\<close> object; the selection logic only ever reads its \<open>id\<close>, so a page is
  the list of the ids of its rows, in display order. The hook \<open>artworks\<close> is declared
  as an array of rows, but \<open>fetchArtworks\<close> stores whatever the response carries in its
  \<open>data\<close> field: \<open>None\<close> stands for a value that is not an array (such as
  \<open>undefined\<close>), on which every array method throws a \<open>TypeError\<close>.

  \<open>customTotalRef\<close> is the mutable ref that mirrors \<open>customSelectionTotal\<close>: the
  event handlers read the ref, the render-time helper \<open>isRowSelected\<close> and the count
  shown in the header read the hook. The only writer of the hook,
  \<open>handleCustomRowSelection\<close>, writes the ref in the same call. \<open>console\<close> collects
  the messages passed to \<open>console.error\<close>.

  The repository holds two copies of the component. They differ in how a click on one
  row reaches the state: in \<open>App.tsx\<close> the table calls \<open>onSelectionChange\<close> with the
  rows that are selected after the click; in the other copy it calls \<open>onRowSelect\<close> or
  \<open>onRowUnselect\<close> with the clicked row. \<open>isRowSelected\<close>, \<open>onSelectAllChange\<close>,
  \<open>handleCustomRowSelection\<close> and \<open>fetchArtworks\<close> are the same in both.
\<close>

record app =
  artworks :: "int list option"
  loading :: bool
  currentPage :: int
  totalRecords :: int
  selectedRowIds :: "int set"
  deselectedRowIds :: "int set"
  customSelectionTotal :: number
  selectCount :: string
  customTotalRef :: number
  console :: "string list"

definition initialApp :: app where
  "initialApp =
     \<lparr> artworks = Some [], loading = False, currentPage = 1, totalRecords = 0,
       selectedRowIds = {}, deselectedRowIds = {}, customSelectionTotal = Finite 0,
       selectCount = [], customTotalRef = Finite 0, console = [] \<rparr>"

definition rowsPerPage :: int where
  "rowsPerPage = 12"

subsection \<open>Render-time queries\<close>

text \<open>\<open>isRowSelected(rowId, rowIndex)\<close> of \<open>App.tsx\<close>: three early returns in this order.\<close>

definition isRowSelected :: "app \<Rightarrow> int \<Rightarrow> nat \<Rightarrow> bool" where
  "isRowSelected s rowId rowIndex =
     (if rowId \<in> deselectedRowIds s then False
      else if rowId \<in> selectedRowIds s then True
      else (let globalIndex = (currentPage s - 1) * rowsPerPage + int rowIndex
            in numLess (Finite globalIndex) (customSelectionTotal s)))"

text \<open>\<open>artworks.filter((artwork, index) => isRowSelected(artwork.id, index))\<close>, the
  index counted from the start of the page. The result \<open>None\<close> stands for the
  \<open>TypeError\<close> thrown when \<open>artworks\<close> is not an array.\<close>

fun filterRows :: "app \<Rightarrow> nat \<Rightarrow> int list \<Rightarrow> int list" where
  "filterRows s index [] = []"
| "filterRows s index (a # rest) =
     (if isRowSelected s a index then a # filterRows s (Suc index) rest
      else filterRows s (Suc index) rest)"

definition getSelectedArtworks :: "app \<Rightarrow> int list option" where
  "getSelectedArtworks s =
     (case artworks s of None \<Rightarrow> None | Some rows \<Rightarrow> Some (filterRows s 0 rows))"

fun everyRow :: "app \<Rightarrow> nat \<Rightarrow> int list \<Rightarrow> bool" where
  "everyRow s index [] = True"
| "everyRow s index (a # rest) = (isRowSelected s a index \<and> everyRow s (Suc index) rest)"

definition isAllSelected :: "app \<Rightarrow> bool option" where
  "isAllSelected s =
     (case artworks s of
        None \<Rightarrow> None
      | Some rows \<Rightarrow> Some (length rows > 0 \<and> everyRow s 0 rows))"

text \<open>The number shown in the header:
  \<open>customSelectionTotal + selectedRowIds.size - deselectedRowIds.size\<close>.\<close>

definition selectedCount :: "app \<Rightarrow> number" where
  "selectedCount s =
     numAdd (numAdd (customSelectionTotal s) (int (card (selectedRowIds s))))
            (- int (card (deselectedRowIds s)))"

subsection \<open>Single-row handlers\<close>

text \<open>\<open>artworks.findIndex(a => a.id === id)\<close>: the offset of the first row that
  satisfies the test; \<open>None\<close> stands for the result \<open>-1\<close>.\<close>

fun findIndexFrom :: "nat \<Rightarrow> ('a \<Rightarrow> bool) \<Rightarrow> 'a list \<Rightarrow> nat option" where
  "findIndexFrom index P [] = None"
| "findIndexFrom index P (a # rest) =
     (if P a then Some index else findIndexFrom (Suc index) P rest)"

definition findIndex :: "('a \<Rightarrow> bool) \<Rightarrow> 'a list \<Rightarrow> nat option" where
  "findIndex P rows = findIndexFrom 0 P rows"

text \<open>\<open>onRowSelect\<close> and \<open>onRowUnselect\<close>, the handlers of one clicked row. The
  updates of the two hooks are written as the new field values. When \<open>artworks\<close> is
  not an array, \<open>findIndex\<close> throws before any hook is set.\<close>

definition onRowSelect :: "app \<Rightarrow> int \<Rightarrow> app" where
  "onRowSelect s rowId =
     (case artworks s of
        None \<Rightarrow> s
      | Some rows \<Rightarrow>
          (case findIndex (\<lambda>a. a = rowId) rows of
             None \<Rightarrow> s
           | Some index \<Rightarrow>
               (let globalIndex = (currentPage s - 1) * rowsPerPage + int index;
                    currentCustomTotal = customTotalRef s;
                    autoSelectedByRule = numLess (Finite globalIndex) currentCustomTotal
                in if autoSelectedByRule
                   then s\<lparr>deselectedRowIds := deselectedRowIds s - {rowId}\<rparr>
                   else s\<lparr>selectedRowIds := insert rowId (selectedRowIds s)\<rparr>)))"

definition onRowUnselect :: "app \<Rightarrow> int \<Rightarrow> app" where
  "onRowUnselect s rowId =
     (case artworks s of
        None \<Rightarrow> s
      | Some rows \<Rightarrow>
          (case findIndex (\<lambda>a. a = rowId) rows of
             None \<Rightarrow> s
           | Some index \<Rightarrow>
               (let globalIndex = (currentPage s - 1) * rowsPerPage + int index;
                    currentCustomTotal = customTotalRef s;
                    autoSelectedByRule = numLess (Finite globalIndex) currentCustomTotal
                in if autoSelectedByRule
                   then s\<lparr>deselectedRowIds := insert rowId (deselectedRowIds s),
                          selectedRowIds := selectedRowIds s - {rowId}\<rparr>
                   else s\<lparr>selectedRowIds := selectedRowIds s - {rowId}\<rparr>)))"

text \<open>A single-item toggle event \<open>(id, desiredSelected)\<close> reaches one of the two.\<close>

definition toggleItem :: "app \<Rightarrow> int \<Rightarrow> bool \<Rightarrow> app" where
  "toggleItem s rowId desiredSelected =
     (if desiredSelected then onRowSelect s rowId else onRowUnselect s rowId)"

text \<open>The single-item transition applied to every row of the page in turn.\<close>

fun toggleEach :: "app \<Rightarrow> int list \<Rightarrow> bool \<Rightarrow> app" where
  "toggleEach s [] desiredSelected = s"
| "toggleEach s (rowId # ids) desiredSelected =
     toggleEach (toggleItem s rowId desiredSelected) ids desiredSelected"

subsection \<open>The selection-change handler of \<open>App.tsx\<close>\<close>

text \<open>\<open>onSelectionChange(e)\<close> receives in \<open>e.value\<close> the rows of the page that are
  selected after the click, clones both sets, and walks over every row of the page.
  The pair carried through the loop is \<open>(nextSelectedIds, nextDeselectedIds)\<close>. When
  \<open>artworks\<close> is not an array, \<open>forEach\<close> throws before the two hooks are set.\<close>

fun reconcileRows ::
  "app \<Rightarrow> int set \<Rightarrow> nat \<Rightarrow> int list \<Rightarrow> int set \<times> int set \<Rightarrow> int set \<times> int set" where
  "reconcileRows s currentSelectedIds index [] next = next"
| "reconcileRows s currentSelectedIds index (a # rest) (nextSelectedIds, nextDeselectedIds) =
     (let isSelectedNow = (a \<in> currentSelectedIds);
          globalIndex = (currentPage s - 1) * rowsPerPage + int index;
          autoSelectedByRule = numLess (Finite globalIndex) (customTotalRef s)
      in reconcileRows s currentSelectedIds (Suc index) rest
           (if isSelectedNow then
              (if autoSelectedByRule then
                 (nextSelectedIds,
                  if a \<in> nextDeselectedIds then nextDeselectedIds - {a} else nextDeselectedIds)
               else
                 (if a \<notin> nextSelectedIds then insert a nextSelectedIds else nextSelectedIds,
                  nextDeselectedIds))
            else
              (if autoSelectedByRule then
                 (nextSelectedIds,
                  if a \<notin> nextDeselectedIds then insert a nextDeselectedIds else nextDeselectedIds)
               else
                 (if a \<in> nextSelectedIds then nextSelectedIds - {a} else nextSelectedIds,
                  nextDeselectedIds))))"

definition onSelectionChange :: "app \<Rightarrow> int list \<Rightarrow> app" where
  "onSelectionChange s evalue =
     (case artworks s of
        None \<Rightarrow> s
      | Some rows \<Rightarrow>
          (let currentSelectedIds = set evalue;
               next = reconcileRows s currentSelectedIds 0 rows
                        (selectedRowIds s, deselectedRowIds s)
           in s\<lparr>selectedRowIds := fst next, deselectedRowIds := snd next\<rparr>))"

subsection \<open>The page-level handler\<close>

text \<open>\<open>onSelectAllChange(e)\<close> queues one functional update per row. The updates run
  in order on the latest value of each hook, while the tests
  \<open>deselectedRowIds.has(id)\<close> and \<open>selectedRowIds.has(id)\<close> read the sets captured
  when the handler started: these are the first two arguments of the loops. When
  \<open>artworks\<close> is not an array, \<open>map\<close> throws before any update is queued.\<close>

fun selectAllRows :: "int set \<Rightarrow> int list \<Rightarrow> int set \<times> int set \<Rightarrow> int set \<times> int set" where
  "selectAllRows deselectedAtStart [] (sel, des) = (sel, des)"
| "selectAllRows deselectedAtStart (rowId # ids) (sel, des) =
     selectAllRows deselectedAtStart ids
       (insert rowId sel, if rowId \<in> deselectedAtStart then des - {rowId} else des)"

fun unselectAllRows :: "int set \<Rightarrow> int list \<Rightarrow> int set \<times> int set \<Rightarrow> int set \<times> int set" where
  "unselectAllRows selectedAtStart [] (sel, des) = (sel, des)"
| "unselectAllRows selectedAtStart (rowId # ids) (sel, des) =
     unselectAllRows selectedAtStart ids
       (if rowId \<in> selectedAtStart then sel - {rowId} else sel, insert rowId des)"

definition onSelectAllChange :: "app \<Rightarrow> bool \<Rightarrow> app" where
  "onSelectAllChange s checked =
     (case artworks s of
        None \<Rightarrow> s
      | Some rows \<Rightarrow>
          (let currentPageIds = rows;
               next = (if checked
                       then selectAllRows (deselectedRowIds s) currentPageIds
                              (selectedRowIds s, deselectedRowIds s)
                       else unselectAllRows (selectedRowIds s) currentPageIds
                              (selectedRowIds s, deselectedRowIds s))
           in s\<lparr>selectedRowIds := fst next, deselectedRowIds := snd next\<rparr>))"

subsection \<open>Replacing the baseline\<close>

text \<open>\<open>parseInt(string)\<close> with no radix, after the language standard: leading white
  space is dropped, one sign is read, the prefix \<open>0x\<close> or \<open>0X\<close> selects radix 16, the
  longest run of digits of the radix is read as an integer, and the result is the
  Number value of that integer with its sign; no digit gives \<open>NaN\<close>. For decimal
  text of more than 20 significant digits the standard lets an implementation
  approximate the integer before rounding; the model rounds the exact integer.

  A character of the text is a code unit below 256, which covers everything that the
  field, an input of type \<open>number\<close>, can hold; the white space among them is listed.\<close>

definition isWhiteSpace :: "char \<Rightarrow> bool" where
  "isWhiteSpace c =
     (c \<in> {CHR 0x20, CHR 0x09, CHR 0x0A, CHR 0x0B, CHR 0x0C, CHR 0x0D, CHR 0xA0})"

definition digitValue :: "char \<Rightarrow> nat option" where
  "digitValue c =
     (let n = (of_char c :: nat)
      in if 48 \<le> n \<and> n \<le> 57 then Some (n - 48)
         else if 97 \<le> n \<and> n \<le> 122 then Some (n - 87)
         else if 65 \<le> n \<and> n \<le> 90 then Some (n - 55)
         else None)"

fun radixDigits :: "nat \<Rightarrow> string \<Rightarrow> nat list" where
  "radixDigits R [] = []"
| "radixDigits R (c # cs) =
     (case digitValue c of
        None \<Rightarrow> []
      | Some d \<Rightarrow> if d < R then d # radixDigits R cs else [])"

definition parseInt :: "string \<Rightarrow> number" where
  "parseInt inputString =
     (let S = dropWhile isWhiteSpace inputString;
          sign = (if S \<noteq> [] \<and> hd S = CHR ''-'' then - 1 else (1::int));
          S1 = (if S \<noteq> [] \<and> (hd S = CHR ''+'' \<or> hd S = CHR ''-'') then tl S else S);
          hex = (take 2 S1 = ''0x'' \<or> take 2 S1 = ''0X'');
          R = (if hex then 16 else 10);
          S2 = (if hex then drop 2 S1 else S1);
          Z = radixDigits R S2
      in if Z = [] then NaN
         else toNumber (sign * int (foldl (\<lambda>acc d. acc * R + d) 0 Z)))"

text \<open>The decimal numeral of a natural number, the text a user types for it.\<close>

definition digitChar :: "nat \<Rightarrow> char" where
  "digitChar d = char_of (48 + d)"

function decimal :: "nat \<Rightarrow> string" where
  "decimal n =
     (if n < 10 then [digitChar n] else decimal (n div 10) @ [digitChar (n mod 10)])"
  by pat_completeness auto
termination
  by (relation "measure (\<lambda>n. n)") auto

declare decimal.simps [simp del]

text \<open>\<open>handleCustomRowSelection()\<close> reads the text of the input field. The second
  component of the result is the message of \<open>alert\<close>, if one was shown.\<close>

definition handleCustomRowSelection :: "app \<Rightarrow> app \<times> string option" where
  "handleCustomRowSelection s =
     (let count = parseInt (selectCount s)
      in if isNaN count \<or> numLess count (Finite 0)
         then (s, Some ''Please enter a valid number'')
         else (s\<lparr>selectedRowIds := {}, deselectedRowIds := {},
                 customSelectionTotal := count, customTotalRef := count,
                 selectCount := []\<rparr>, None))"

subsection \<open>Fetching a page\<close>

text \<open>What \<open>fetchArtworks\<close> can meet, in the order of its statements:
  \<^item> \<open>NetworkError\<close>: \<open>fetch\<close> throws;
  \<^item> \<open>DecodeError\<close>: \<open>response.json()\<close> throws;
  \<^item> \<open>NullBody\<close>: the body is \<open>null\<close>, and reading \<open>data.data\<close> throws;
  \<^item> \<open>NoPagination d\<close>: the body has no \<open>pagination\<close>;
    \<open>setArtworks(data.data)\<close> has run when reading
    \<open>data.pagination.total\<close> throws; \<open>d\<close> is the \<open>data\<close> field, rows or not an array;
  \<^item> \<open>NoRows total\<close>: the body has a \<open>pagination\<close> but its \<open>data\<close> is not an
    array; nothing throws inside \<open>fetchArtworks\<close>;
  \<^item> \<open>Response rows total\<close>: the body has the declared type \<open>ApiResponse\<close>.
  The page number only enters the request. The total is taken to be an integer; it
  only feeds the pagination labels.\<close>

datatype fetch_result =
    NetworkError
  | DecodeError
  | NullBody
  | NoPagination "int list option"
  | NoRows int
  | Response "int list" int

definition fetchArtworks :: "app \<Rightarrow> int \<Rightarrow> fetch_result \<Rightarrow> app" where
  "fetchArtworks s page r =
     (let s1 = s\<lparr>loading := True\<rparr>;
          s2 = (case r of
                  Response rows totalCount \<Rightarrow>
                    s1\<lparr>artworks := Some rows, totalRecords := totalCount\<rparr>
                | NoRows totalCount \<Rightarrow>
                    s1\<lparr>artworks := None, totalRecords := totalCount\<rparr>
                | NoPagination d \<Rightarrow>
                    s1\<lparr>artworks := d,
                       console := console s1 @ [''Error fetching artworks:'']\<rparr>
                | _ \<Rightarrow> s1\<lparr>console := console s1 @ [''Error fetching artworks:'']\<rparr>)
      in s2\<lparr>loading := False\<rparr>)"

text \<open>A pagination button sets \<open>currentPage\<close>; the effect on \<open>currentPage\<close> then
  fetches that page.\<close>

definition goToPage :: "app \<Rightarrow> int \<Rightarrow> fetch_result \<Rightarrow> app" where
  "goToPage s page r = fetchArtworks (s\<lparr>currentPage := page\<rparr>) page r"

subsection \<open>Runs of the component\<close>

text \<open>The events a session consists of. \<open>CustomRowSelection text\<close> types \<open>text\<close> into
  the input field and presses the button.\<close>

datatype event =
    RowSelect int
  | RowUnselect int
  | SelectionChange "int list"
  | SelectAllChange bool
  | CustomRowSelection string
  | GoToPage int fetch_result

fun dispatch :: "app \<Rightarrow> event \<Rightarrow> app" where
  "dispatch s (RowSelect rowId) = onRowSelect s rowId"
| "dispatch s (RowUnselect rowId) = onRowUnselect s rowId"
| "dispatch s (SelectionChange evalue) = onSelectionChange s evalue"
| "dispatch s (SelectAllChange checked) = onSelectAllChange s checked"
| "dispatch s (CustomRowSelection text) =
     fst (handleCustomRowSelection (s\<lparr>selectCount := text\<rparr>))"
| "dispatch s (GoToPage page r) = goToPage s page r"

text \<open>Once \<open>artworks\<close> is not an array the next render throws in
  \<open>getSelectedArtworks\<close>, and the component, which has no error boundary, is
  unmounted: no later event reaches it.\<close>

definition step :: "app \<Rightarrow> event \<Rightarrow> app" where
  "step s e = (if artworks s = None then s else dispatch s e)"

definition run :: "app \<Rightarrow> event list \<Rightarrow> app" where
  "run s events = foldl step s events"

text \<open>The first page of the collection as the scenarios of the specification have it:
  identifiers 1 to 12 at offsets 0 to 11.\<close>

definition firstPage :: "int list" where
  "firstPage = [1, 2, 3, 4, 5, 6, 7, 8, 9, 10, 11, 12]"

definition secondPage :: "int list" where
  "secondPage = [13, 14, 15, 16, 17, 18, 19, 20, 21, 22, 23, 24]"

text \<open>States of four short sessions. In each the first page arrives first. Then either
  the header box is ticked and unticked again; or the text \<open>15\<close> is submitted as the
  bulk count; or, after that, the second page is opened.\<close>

definition pageOne :: app where
  "pageOne = run initialApp [GoToPage 1 (Response firstPage 100)]"

definition pageOneUnselected :: app where
  "pageOneUnselected =
     run initialApp [GoToPage 1 (Response firstPage 100),
                     SelectAllChange True, SelectAllChange False]"

definition pageOneFifteen :: app where
  "pageOneFifteen =
     run initialApp [GoToPage 1 (Response firstPage 100), CustomRowSelection ''15'']"

definition pageTwoFifteen :: app where
  "pageTwoFifteen =
     run initialApp [GoToPage 1 (Response firstPage 100), CustomRowSelection ''15'',
                     GoToPage 2 (Response secondPage 100)]"

text \<open>The triple the specification calls the Selection Model.\<close>

definition selectionModel :: "app \<Rightarrow> number \<times> int set \<times> int set" where
  "selectionModel s = (customSelectionTotal s, selectedRowIds s, deselectedRowIds s)"

subsection \<open>Notions used in the statements\<close>

text \<open>The identifiers of the rows on display; none when \<open>artworks\<close> is not an array.\<close>

definition displayedIds :: "app \<Rightarrow> int list" where
  "displayedIds s = (case artworks s of None \<Rightarrow> [] | Some rows \<Rightarrow> rows)"

text \<open>The identifiers of the rows of a page, counted from offset \<open>index\<close>, that the bulk
  rule covers (\<open>autoSelectedByRule\<close> is true at their offset), and of those it does not
  cover.\<close>

fun autoRows :: "app \<Rightarrow> nat \<Rightarrow> int list \<Rightarrow> int set" where
  "autoRows s index [] = {}"
| "autoRows s index (a # rest) =
     (if numLess (Finite ((currentPage s - 1) * rowsPerPage + int index)) (customTotalRef s)
      then insert a (autoRows s (Suc index) rest)
      else autoRows s (Suc index) rest)"

fun manualRows :: "app \<Rightarrow> nat \<Rightarrow> int list \<Rightarrow> int set" where
  "manualRows s index [] = {}"
| "manualRows s index (a # rest) =
     (if numLess (Finite ((currentPage s - 1) * rowsPerPage + int index)) (customTotalRef s)
      then manualRows s (Suc index) rest
      else insert a (manualRows s (Suc index) rest))"

text \<open>What every state of a session satisfies: the ref agrees with the hook, the
  baseline is a non-negative integer that a double holds or is infinite, and both sets
  are finite.\<close>

definition wellFormed :: "app \<Rightarrow> bool" where
  "wellFormed s =
     (customTotalRef s = customSelectionTotal s
      \<and> (case customSelectionTotal s of
            Finite k \<Rightarrow> 0 \<le> k \<and> toNumber k = Finite k
          | Infinity \<Rightarrow> True
          | _ \<Rightarrow> False)
      \<and> finite (selectedRowIds s) \<and> finite (deselectedRowIds s))"

section \<open>Facts about numbers\<close>

lemma bitLength_bounds:
  "0 < n \<Longrightarrow> 2 ^ (bitLength n - 1) \<le> n \<and> n < 2 ^ bitLength n"
proof (induction n rule: bitLength.induct)
  case (1 n)
  show ?case
  proof (cases "n div 2 = 0")
    case True
    with "1.prems" have n1: "n = 1" by presburger
    show ?thesis unfolding n1
      by (simp add: bitLength.simps [of 1] bitLength.simps [of 0])
  next
    case False
    with "1.prems" have pos: "0 < n div 2" by presburger
    from "1.prems" have nle: "\<not> n \<le> 0" by simp
    from "1.IH" [OF nle pos]
    have ih: "2 ^ (bitLength (n div 2) - 1) \<le> n div 2" "n div 2 < 2 ^ bitLength (n div 2)"
      by simp_all
    have bl: "bitLength n = Suc (bitLength (n div 2))"
      using nle by (simp add: bitLength.simps [of n])
    have bpos: "0 < bitLength (n div 2)"
      using pos by (simp add: bitLength.simps [of "n div 2"])
    then obtain b where b: "bitLength (n div 2) = Suc b"
      by (cases "bitLength (n div 2)") simp_all
    from ih b have "2 ^ b \<le> n div 2" "n div 2 < 2 * 2 ^ b" by simp_all
    then have "2 * 2 ^ b \<le> n" "n < 2 * (2 * 2 ^ b)" by presburger+
    then show ?thesis by (simp add: bl b)
  qed
qed

lemma bitLength_unique:
  assumes "2 ^ b \<le> n" and "n < 2 ^ Suc b"
  shows "bitLength n = Suc b"
proof -
  have "(0::int) < 2 ^ b" by simp
  with assms(1) have pos: "0 < n" by linarith
  note bb = bitLength_bounds [OF pos]
  have "(2::int) ^ b < 2 ^ bitLength n"
    using assms(1) bb by linarith
  then have 1: "b < bitLength n"
    by (rule power_less_imp_less_exp [rotated]) simp
  have "(2::int) ^ (bitLength n - 1) < 2 ^ Suc b"
    using assms(2) bb by linarith
  then have 2: "bitLength n - 1 < Suc b"
    by (rule power_less_imp_less_exp [rotated]) simp
  from 1 2 show ?thesis by linarith
qed

lemma div_lower:
  fixes a c m :: int
  assumes "a * c \<le> m" and "0 < c"
  shows "a \<le> m div c"
proof -
  have "(a * c) div c \<le> m div c"
    using assms by (rule zdiv_mono1)
  with assms(2) show ?thesis by simp
qed

lemma div_upper:
  fixes a c m :: int
  assumes "m < a * c" and "0 < c"
  shows "m div c < a"
proof (rule ccontr)
  assume "\<not> m div c < a"
  then have "a \<le> m div c" by simp
  with assms(2) have "a * c \<le> (m div c) * c"
    by (simp add: mult_right_mono)
  moreover have "m = (m div c) * c + m mod c" by simp
  moreover have "0 \<le> m mod c" using assms(2) by simp
  ultimately have "a * c \<le> m" by linarith
  with assms(1) show False by simp
qed

text \<open>A mantissa of 53 binary digits times a power of two is a double.\<close>

lemma roundMagnitude_scaled:
  assumes q: "2 ^ 52 \<le> q" "q < 2 ^ 53" and lim: "q * 2 ^ e < doubleLimit"
  shows "roundMagnitude (q * 2 ^ e) = Some (q * 2 ^ e)"
proof (cases e)
  case 0
  with q show ?thesis by (simp add: roundMagnitude_def mantissaLimit_def)
next
  case (Suc d)
  define m where "m = q * 2 ^ e"
  have pw: "(0::int) < 2 ^ e" by simp
  have lower: "(2::int) ^ (52 + e) \<le> m"
    unfolding m_def power_add using q(1) pw by (simp add: mult_right_mono)
  have upper: "m < 2 ^ Suc (52 + e)"
  proof -
    have "q * 2 ^ e < 2 ^ 53 * 2 ^ e"
      using q(2) pw by (simp add: mult_strict_right_mono)
    also have "\<dots> = (2::int) ^ Suc (52 + e)"
      by (simp add: power_add)
    finally show ?thesis unfolding m_def .
  qed
  have bl: "bitLength m = Suc (52 + e)"
    using lower upper by (rule bitLength_unique)
  have big: "\<not> m < mantissaLimit"
  proof -
    have "(2::int) ^ 53 \<le> 2 ^ (52 + e)"
      using Suc by (intro power_increasing) simp_all
    with lower show ?thesis by (simp add: mantissaLimit_def)
  qed
  have ex: "bitLength m - 53 = e" using bl by simp
  have dv: "m div 2 ^ e = q" "m mod 2 ^ e = 0" "q * 2 ^ e = m"
    unfolding m_def by simp_all
  have lim': "\<not> doubleLimit \<le> m"
    using lim unfolding m_def by simp
  have "roundMagnitude m = Some m"
    using big lim' by (simp add: roundMagnitude_def ex dv Let_def)
  then show ?thesis
    unfolding m_def .
qed

text \<open>Every result of the rounding is exact or such a product.\<close>

lemma roundMagnitude_shape:
  assumes r: "roundMagnitude m = Some v"
  shows "(v = m \<and> m < mantissaLimit)
         \<or> (\<exists>q e. 2 ^ 52 \<le> q \<and> q < 2 ^ 53 \<and> v = q * 2 ^ e \<and> v < doubleLimit)"
proof (cases "m < mantissaLimit")
  case True
  with r show ?thesis by (simp add: roundMagnitude_def)
next
  case False
  then have big: "2 ^ 53 \<le> m" by (simp add: mantissaLimit_def)
  then have pos: "0 < m" by simp
  define b where "b = bitLength m"
  define e where "e = b - 53"
  define q where "q = m div 2 ^ e"
  from bitLength_bounds [OF pos]
  have bb: "2 ^ (b - 1) \<le> m" "m < 2 ^ b" by (simp_all add: b_def)
  have "(2::int) ^ 53 < 2 ^ b" using big bb(2) by linarith
  then have b53: "53 < b" by (rule power_less_imp_less_exp [rotated]) simp
  then have be: "b = 53 + e" "b - 1 = 52 + e" "0 < e" by (simp_all add: e_def)
  have pw: "(0::int) < 2 ^ e" by simp
  have q_lo: "2 ^ 52 \<le> q"
    unfolding q_def using bb(1) pw by (intro div_lower) (simp_all add: be power_add)
  have q_hi: "q < 2 ^ 53"
    unfolding q_def using bb(2) pw by (intro div_upper) (simp_all add: be power_add)
  from r False have lim: "v < doubleLimit" and "v = q * 2 ^ e \<or> v = (q + 1) * 2 ^ e"
    by (auto simp add: roundMagnitude_def Let_def b_def [symmetric] e_def [symmetric]
        q_def [symmetric] split: if_splits)
  then obtain q' where v: "v = q' * 2 ^ e" and "q' = q \<or> q' = q + 1"
    by blast
  from this(2)
  show ?thesis
  proof
    assume "q' = q"
    with q_lo q_hi v lim show ?thesis by blast
  next
    assume q1: "q' = q + 1"
    show ?thesis
    proof (cases "q + 1 < 2 ^ 53")
      case True
      with q_lo q1 v lim have "2 ^ 52 \<le> q'" "q' < 2 ^ 53" by simp_all
      with v lim show ?thesis by blast
    next
      case False
      with q_hi have "q + 1 = 2 ^ 53" by simp
      with q1 v have "v = 2 ^ 52 * 2 ^ Suc e" by simp
      moreover have "(2::int) ^ 52 \<le> 2 ^ 52" "(2::int) ^ 52 < 2 ^ 53" by simp_all
      ultimately show ?thesis using lim by blast
    qed
  qed
qed

lemma roundMagnitude_idem:
  assumes "roundMagnitude m = Some v"
  shows "roundMagnitude v = Some v"
  using roundMagnitude_shape [OF assms]
proof
  assume "v = m \<and> m < mantissaLimit"
  then show ?thesis by (simp add: roundMagnitude_def)
next
  assume "\<exists>q e. 2 ^ 52 \<le> q \<and> q < 2 ^ 53 \<and> v = q * 2 ^ e \<and> v < doubleLimit"
  then obtain q e where "2 ^ 52 \<le> q" "q < 2 ^ 53" "v = q * 2 ^ e" "v < doubleLimit"
    by blast
  then show ?thesis
    using roundMagnitude_scaled [of q e] by simp
qed

lemma roundMagnitude_nonneg: "roundMagnitude m = Some v \<Longrightarrow> 0 \<le> m \<Longrightarrow> 0 \<le> v"
  using roundMagnitude_shape [of m v] by (auto simp add: zero_le_mult_iff)

text \<open>Rounding a double changes nothing; integers below \<open>2^53\<close> are doubles.\<close>

lemma toNumber_idem:
  assumes "toNumber k = Finite v"
  shows "toNumber v = Finite v"
proof (cases "0 \<le> k")
  case True
  with assms obtain w where w: "roundMagnitude k = Some w" "v = w"
    by (auto simp add: toNumber_def split: option.splits)
  with True have "0 \<le> v" by (auto dest: roundMagnitude_nonneg)
  moreover from w have "roundMagnitude v = Some v" by (auto dest: roundMagnitude_idem)
  ultimately show ?thesis by (simp add: toNumber_def)
next
  case False
  with assms obtain w where w: "roundMagnitude (- k) = Some w" "v = - w"
    by (auto simp add: toNumber_def split: option.splits)
  from False w have w0: "0 \<le> w" by (auto dest: roundMagnitude_nonneg)
  from w have ww: "roundMagnitude w = Some w" by (auto dest: roundMagnitude_idem)
  show ?thesis
  proof (cases "w = 0")
    case True
    with w ww show ?thesis by (simp add: toNumber_def)
  next
    case False
    with w0 w ww show ?thesis by (simp add: toNumber_def)
  qed
qed

lemma toNumber_sign:
  "toNumber k = Finite v \<Longrightarrow> 0 \<le> k \<Longrightarrow> 0 \<le> v"
  by (auto simp add: toNumber_def split: option.splits dest: roundMagnitude_nonneg)

lemma toNumber_not_NaN: "toNumber k \<noteq> NaN"
  by (simp add: toNumber_def split: option.splits)

lemma toNumber_nonneg_cases:
  "0 \<le> k \<Longrightarrow> toNumber k = Infinity \<or> (\<exists>v. toNumber k = Finite v \<and> 0 \<le> v)"
  by (auto simp add: toNumber_def split: option.splits dest: roundMagnitude_nonneg)

lemma toNumber_neg_cases:
  "k < 0 \<Longrightarrow> toNumber k = NegInfinity \<or> (\<exists>v. toNumber k = Finite v \<and> v \<le> 0)"
  by (auto simp add: toNumber_def split: option.splits dest: roundMagnitude_nonneg)

lemma toNumber_exact: "- (2 ^ 53) < k \<Longrightarrow> k < 2 ^ 53 \<Longrightarrow> toNumber k = Finite k"
  by (simp add: toNumber_def roundMagnitude_def mantissaLimit_def)

lemma toNumber_huge: "toNumber (2 ^ 1024) = Infinity"
proof -
  have bl: "bitLength (2 ^ 1024) = Suc 1024"
    by (rule bitLength_unique) simp_all
  have e: "Suc 1024 - 53 = (972::nat)" by simp
  have q: "(2::int) ^ 1024 div 2 ^ 972 = 2 ^ 52" "(2::int) ^ 1024 mod 2 ^ 972 = 0"
    by simp_all
  have big: "\<not> (2::int) ^ 1024 < mantissaLimit"
    by (simp add: mantissaLimit_def)
  have "roundMagnitude (2 ^ 1024) = None"
    unfolding roundMagnitude_def bl e Let_def q using big
    by (simp add: doubleLimit_def)
  then show ?thesis by (simp add: toNumber_def)
qed

text \<open>The first integer that a double does not hold is rounded down to \<open>2^53\<close>.\<close>

lemma toNumber_above_limit: "toNumber 9007199254740993 = Finite 9007199254740992"
  by (simp add: toNumber_def roundMagnitude_def mantissaLimit_def doubleLimit_def
      bitLength.simps)

section \<open>Properties of the queries\<close>

text \<open>
  Claim C1. For every state and every row with identifier \<open>rowId\<close> at offset
  \<open>rowIndex\<close> of page \<open>currentPage\<close>, with twelve rows per page, \<open>isRowSelected\<close> is
  false when the identifier is in the exclude set, otherwise true when it is in the
  include set, otherwise it is the comparison of the virtual position
  \<open>(currentPage - 1) * 12 + rowIndex\<close> with the baseline; for a position \<open>p\<close> and an
  integer baseline \<open>b\<close> that comparison is \<open>p < b\<close>.
\<close>

theorem isRowSelected_formula:
  "isRowSelected s rowId rowIndex =
     (if rowId \<in> deselectedRowIds s then False
      else if rowId \<in> selectedRowIds s then True
      else numLess (Finite ((currentPage s - 1) * 12 + int rowIndex))
                   (customSelectionTotal s))
   \<and> numLess (Finite p) (Finite b) = (p < b)
   \<and> rowsPerPage = 12"
  by (simp add: isRowSelected_def rowsPerPage_def)

text \<open>
  Claim C10. When an identifier is in the include set and in the exclude set at once,
  \<open>isRowSelected\<close> answers false for it at every offset of every page: the exclude
  set is consulted first.
\<close>

theorem isRowSelected_exclude_wins:
  assumes "rowId \<in> selectedRowIds s" and "rowId \<in> deselectedRowIds s"
  shows "isRowSelected s rowId rowIndex = False"
  using assms by (simp add: isRowSelected_def)

theorem isRowSelected_exclude_wins_witness:
  "5 \<in> selectedRowIds (initialApp\<lparr>selectedRowIds := {5}, deselectedRowIds := {5},
                                     customSelectionTotal := Finite 15\<rparr>)
   \<and> 5 \<in> deselectedRowIds (initialApp\<lparr>selectedRowIds := {5}, deselectedRowIds := {5},
                                         customSelectionTotal := Finite 15\<rparr>)
   \<and> isRowSelected (initialApp\<lparr>selectedRowIds := {5}, deselectedRowIds := {5},
                                   customSelectionTotal := Finite 15\<rparr>) 5 4 = False"
  using isRowSelected_exclude_wins
    [of 5 "initialApp\<lparr>selectedRowIds := {5}, deselectedRowIds := {5},
                       customSelectionTotal := Finite 15\<rparr>" 4]
  by simp

section \<open>Auxiliary facts about the loops\<close>

lemma findIndexFrom_None:
  "findIndexFrom n P xs = None \<longleftrightarrow> (\<forall>x \<in> set xs. \<not> P x)"
  by (induction xs arbitrary: n) auto

lemma findIndex_absent: "x \<notin> set xs \<Longrightarrow> findIndex (\<lambda>a. a = x) xs = None"
  by (auto simp add: findIndex_def findIndexFrom_None)

lemma findIndex_present: "x \<in> set xs \<Longrightarrow> \<exists>i. findIndex (\<lambda>a. a = x) xs = Some i"
  using findIndexFrom_None [of 0 "\<lambda>a. a = x" xs] by (auto simp add: findIndex_def)

lemma selectAllRows_closed:
  "selectAllRows D ids (sel, des) = (sel \<union> set ids, des - (set ids \<inter> D))"
  by (induction ids arbitrary: sel des) auto

lemma unselectAllRows_closed:
  "unselectAllRows S ids (sel, des) = (sel - (set ids \<inter> S), des \<union> set ids)"
  by (induction ids arbitrary: sel des) auto

lemma parseInt_15: "parseInt ''15'' = Finite 15"
  by (simp add: parseInt_def isWhiteSpace_def digitValue_def toNumber_exact)

lemma pageOne_eq:
  "pageOne = initialApp\<lparr>artworks := Some firstPage, totalRecords := 100\<rparr>"
  by (simp add: pageOne_def run_def step_def goToPage_def fetchArtworks_def initialApp_def)

lemma pageOneUnselected_eq:
  "pageOneUnselected =
     initialApp\<lparr>artworks := Some firstPage, totalRecords := 100,
                 deselectedRowIds := set firstPage\<rparr>"
  by (simp add: pageOneUnselected_def run_def step_def goToPage_def fetchArtworks_def
      initialApp_def onSelectAllChange_def selectAllRows_closed unselectAllRows_closed)

lemma pageOneFifteen_eq:
  "pageOneFifteen =
     initialApp\<lparr>artworks := Some firstPage, totalRecords := 100,
                 customSelectionTotal := Finite 15, customTotalRef := Finite 15\<rparr>"
  by (simp add: pageOneFifteen_def run_def step_def goToPage_def fetchArtworks_def
      initialApp_def handleCustomRowSelection_def Let_def parseInt_15 isNaN_def)

lemma pageTwoFifteen_eq:
  "pageTwoFifteen =
     initialApp\<lparr>artworks := Some secondPage, totalRecords := 100, currentPage := 2,
                 customSelectionTotal := Finite 15, customTotalRef := Finite 15\<rparr>"
  by (simp add: pageTwoFifteen_def run_def step_def goToPage_def fetchArtworks_def
      initialApp_def handleCustomRowSelection_def Let_def parseInt_15 isNaN_def)

section \<open>The selection-change handler in closed form\<close>

text \<open>The loop of \<open>onSelectionChange\<close> touches the include set only for rows outside the
  bulk rule and the exclude set only for rows inside it.\<close>

lemma reconcileRows_closed:
  "reconcileRows s cur index rows (S, D) =
     ((S \<union> (manualRows s index rows \<inter> cur)) - (manualRows s index rows - cur),
      (D - (autoRows s index rows \<inter> cur)) \<union> (autoRows s index rows - cur))"
proof (induction rows arbitrary: index S D)
  case Nil
  then show ?case by simp
next
  case (Cons a rest)
  let ?auto = "numLess (Finite ((currentPage s - 1) * rowsPerPage + int index))
                       (customTotalRef s)"
  show ?case
  proof (cases "a \<in> cur")
    case ticked: True
    show ?thesis
    proof (cases ?auto)
      case True
      with ticked show ?thesis by (simp add: Cons.IH) blast
    next
      case False
      with ticked show ?thesis by (simp add: Cons.IH) blast
    qed
  next
    case unticked: False
    show ?thesis
    proof (cases ?auto)
      case True
      with unticked show ?thesis by (simp add: Cons.IH) blast
    next
      case False
      with unticked show ?thesis by (simp add: Cons.IH) blast
    qed
  qed
qed

lemma autoRows_same_page:
  "currentPage t = currentPage s \<Longrightarrow> customTotalRef t = customTotalRef s \<Longrightarrow>
   autoRows t index rows = autoRows s index rows"
  by (induction rows arbitrary: index) simp_all

lemma manualRows_same_page:
  "currentPage t = currentPage s \<Longrightarrow> customTotalRef t = customTotalRef s \<Longrightarrow>
   manualRows t index rows = manualRows s index rows"
  by (induction rows arbitrary: index) simp_all

lemma finite_autoRows: "finite (autoRows s index rows)"
  by (induction rows arbitrary: index) simp_all

lemma finite_manualRows: "finite (manualRows s index rows)"
  by (induction rows arbitrary: index) simp_all

lemma onSelectionChange_closed:
  assumes "artworks s = Some rows"
  shows "onSelectionChange s v =
     s\<lparr>selectedRowIds := (selectedRowIds s \<union> (manualRows s 0 rows \<inter> set v))
                             - (manualRows s 0 rows - set v),
       deselectedRowIds := (deselectedRowIds s - (autoRows s 0 rows \<inter> set v))
                             \<union> (autoRows s 0 rows - set v)\<rparr>"
  using assms by (simp add: onSelectionChange_def Let_def reconcileRows_closed)

lemma onSelectionChange_unmounted: "artworks s = None \<Longrightarrow> onSelectionChange s v = s"
  by (simp add: onSelectionChange_def)

lemma absorb_include: "(((S \<union> A) - B) \<union> A) - B = (S \<union> A) - (B::int set)"
  by blast

lemma absorb_exclude: "(((D - A) \<union> B) - A) \<union> B = (D - A) \<union> (B::int set)"
  by blast

lemma onSelectionChange_idempotent:
  "onSelectionChange (onSelectionChange s v) v = onSelectionChange s v"
proof (cases "artworks s")
  case None
  then show ?thesis by (simp add: onSelectionChange_unmounted)
next
  case (Some rows)
  define t where "t = onSelectionChange s v"
  define M where "M = manualRows s 0 rows"
  define A where "A = autoRows s 0 rows"
  have t_eq: "t = s\<lparr>selectedRowIds := (selectedRowIds s \<union> (M \<inter> set v)) - (M - set v),
                    deselectedRowIds := (deselectedRowIds s - (A \<inter> set v)) \<union> (A - set v)\<rparr>"
    unfolding t_def M_def A_def using Some by (rule onSelectionChange_closed)
  have f: "artworks t = Some rows" "currentPage t = currentPage s"
    "customTotalRef t = customTotalRef s"
    using Some by (simp_all add: t_eq)
  have a: "autoRows t 0 rows = A"
    unfolding A_def using f(2,3) by (rule autoRows_same_page)
  have m: "manualRows t 0 rows = M"
    unfolding M_def using f(2,3) by (rule manualRows_same_page)
  have "onSelectionChange t v =
     t\<lparr>selectedRowIds := (selectedRowIds t \<union> (M \<inter> set v)) - (M - set v),
       deselectedRowIds := (deselectedRowIds t - (A \<inter> set v)) \<union> (A - set v)\<rparr>"
    using onSelectionChange_closed [OF f(1), of v] by (simp only: a m)
  also have "\<dots> = t"
    by (simp add: t_eq absorb_include absorb_exclude)
  finally show ?thesis
    unfolding t_def .
qed

section \<open>The single-row handlers\<close>

text \<open>Once the offset of the row is known, a toggle is one of four updates.\<close>

lemma toggleItem_table:
  assumes "artworks s = Some rows" and "findIndex (\<lambda>a. a = rowId) rows = Some i"
  shows "toggleItem s rowId desiredSelected =
     (if desiredSelected then
        (if numLess (Finite ((currentPage s - 1) * 12 + int i)) (customTotalRef s)
         then s\<lparr>deselectedRowIds := deselectedRowIds s - {rowId}\<rparr>
         else s\<lparr>selectedRowIds := insert rowId (selectedRowIds s)\<rparr>)
      else
        (if numLess (Finite ((currentPage s - 1) * 12 + int i)) (customTotalRef s)
         then s\<lparr>deselectedRowIds := insert rowId (deselectedRowIds s),
                selectedRowIds := selectedRowIds s - {rowId}\<rparr>
         else s\<lparr>selectedRowIds := selectedRowIds s - {rowId}\<rparr>))"
  using assms
  by (simp add: toggleItem_def onRowSelect_def onRowUnselect_def rowsPerPage_def)

text \<open>Unticking a row keeps the two sets apart.\<close>

lemma onRowUnselect_disjoint:
  assumes "selectedRowIds s \<inter> deselectedRowIds s = {}"
  shows "selectedRowIds (onRowUnselect s rowId) \<inter> deselectedRowIds (onRowUnselect s rowId) = {}"
  using assms by (auto simp add: onRowUnselect_def Let_def split: option.splits)

text \<open>
  Claim C9. A single-item toggle whose identifier is not among the rows of the
  current page returns at once: the whole state, and with it baseline, include and
  exclude, is the one before the event.
\<close>

theorem toggleItem_unknown_row:
  assumes "rowId \<notin> set (displayedIds s)"
  shows "toggleItem s rowId desiredSelected = s
         \<and> selectionModel (toggleItem s rowId desiredSelected) = selectionModel s"
  using assms
  by (cases "artworks s")
     (simp_all add: toggleItem_def onRowSelect_def onRowUnselect_def displayedIds_def
        findIndex_absent)

theorem toggleItem_unknown_row_witness:
  "99 \<notin> set (displayedIds pageOneFifteen)
   \<and> displayedIds pageOneFifteen = firstPage
   \<and> toggleItem pageOneFifteen 99 True = pageOneFifteen
   \<and> selectionModel (toggleItem pageOneFifteen 99 True) = selectionModel pageOneFifteen"
proof -
  have shown: "displayedIds pageOneFifteen = firstPage"
    by (simp add: pageOneFifteen_eq displayedIds_def)
  have absent: "99 \<notin> set (displayedIds pageOneFifteen)"
    by (simp add: shown firstPage_def)
  from toggleItem_unknown_row [OF absent, of True] absent shown show ?thesis
    by simp
qed

lemma onRowSelect_twice: "onRowSelect (onRowSelect s rowId) rowId = onRowSelect s rowId"
proof (cases "artworks s")
  case None
  then show ?thesis by (simp add: onRowSelect_def)
next
  case (Some rows)
  then show ?thesis
    by (cases "findIndex (\<lambda>a. a = rowId) rows") (auto simp add: onRowSelect_def Let_def)
qed

lemma onRowUnselect_twice:
  "onRowUnselect (onRowUnselect s rowId) rowId = onRowUnselect s rowId"
proof (cases "artworks s")
  case None
  then show ?thesis by (simp add: onRowUnselect_def)
next
  case (Some rows)
  then show ?thesis
    by (cases "findIndex (\<lambda>a. a = rowId) rows") (auto simp add: onRowUnselect_def Let_def)
qed

text \<open>
  Claim C7. Applying the same single-item toggle event twice in a row gives exactly
  the state that applying it once gives. This holds for \<open>onRowSelect\<close> and
  \<open>onRowUnselect\<close>, and for the selection-change handler of \<open>App.tsx\<close> given the same
  \<open>e.value\<close> twice.
\<close>

theorem toggleItem_idempotent:
  "toggleItem (toggleItem s rowId desiredSelected) rowId desiredSelected =
     toggleItem s rowId desiredSelected
   \<and> onSelectionChange (onSelectionChange s evalue) evalue = onSelectionChange s evalue"
  by (simp add: toggleItem_def onRowSelect_twice onRowUnselect_twice
      onSelectionChange_idempotent)

text \<open>
  Claim C2. The transition table of the single-item toggle asks that ticking a row at
  or beyond the baseline adds its identifier to the include set and removes it from
  the exclude set. On the first page with baseline 0, after the header box has been
  ticked and unticked, ticking row 5 (offset 4) through \<open>onRowSelect\<close> puts 5 into
  the include set and leaves it in the exclude set, so the row is still shown
  unselected. The selection-change handler of \<open>App.tsx\<close> does the same on the same
  click.
\<close>

theorem onRowSelect_keeps_exclusion:
  "selectedRowIds (toggleItem pageOneUnselected 5 True) = {5}
   \<and> 5 \<in> deselectedRowIds (toggleItem pageOneUnselected 5 True)
   \<and> isRowSelected (toggleItem pageOneUnselected 5 True) 5 4 = False
   \<and> selectedRowIds (onSelectionChange pageOneUnselected [5]) = {5}
   \<and> 5 \<in> deselectedRowIds (onSelectionChange pageOneUnselected [5])"
  by (simp add: pageOneUnselected_eq toggleItem_def onRowSelect_def onSelectionChange_def
      findIndex_def firstPage_def initialApp_def rowsPerPage_def isRowSelected_def)

text \<open>
  Claim C4. The include set and the exclude set are meant to be disjoint in every
  reachable state. The session that loads the first page, ticks and unticks the header
  box and then ticks row 5 ends, with either single-row handler, in a state where 5 is
  in both sets.
\<close>

theorem include_exclude_overlap_reachable:
  "selectedRowIds (run initialApp [GoToPage 1 (Response firstPage 100),
                     SelectAllChange True, SelectAllChange False, SelectionChange [5]])
     \<inter> deselectedRowIds (run initialApp [GoToPage 1 (Response firstPage 100),
                     SelectAllChange True, SelectAllChange False, SelectionChange [5]]) = {5}
   \<and> selectedRowIds (run initialApp [GoToPage 1 (Response firstPage 100),
                     SelectAllChange True, SelectAllChange False, RowSelect 5])
     \<inter> deselectedRowIds (run initialApp [GoToPage 1 (Response firstPage 100),
                     SelectAllChange True, SelectAllChange False, RowSelect 5]) = {5}"
  by (simp add: run_def step_def goToPage_def fetchArtworks_def initialApp_def
      onSelectAllChange_def selectAllRows_closed unselectAllRows_closed
      onSelectionChange_def onRowSelect_def findIndex_def firstPage_def rowsPerPage_def)

text \<open>
  Claim C6. The count in the header is \<open>baseline + |include| - |exclude|\<close>, and it is
  meant to be the number of selected items, so never negative. After the first page has
  arrived and the header box has been ticked and unticked, the baseline is 0, the
  include set is empty, the exclude set has twelve members, no row is selected and the
  header shows -12.
\<close>

theorem selectedCount_negative_reachable:
  "selectedCount pageOneUnselected =
     numAdd (numAdd (customSelectionTotal pageOneUnselected)
                    (int (card (selectedRowIds pageOneUnselected))))
            (- int (card (deselectedRowIds pageOneUnselected)))
   \<and> customSelectionTotal pageOneUnselected = Finite 0
   \<and> card (selectedRowIds pageOneUnselected) = 0
   \<and> card (deselectedRowIds pageOneUnselected) = 12
   \<and> selectedCount pageOneUnselected = Finite (- 12)
   \<and> getSelectedArtworks pageOneUnselected = Some []"
  by (simp add: pageOneUnselected_eq selectedCount_def getSelectedArtworks_def firstPage_def
      initialApp_def isRowSelected_def toNumber_exact)

section \<open>The page-level handler\<close>

lemma Diff_Int_self: "A - (B \<inter> A) = A - B"
  by auto

text \<open>The loops of the page-level handler in closed form.\<close>

lemma onSelectAllChange_closed:
  "onSelectAllChange s True =
     s\<lparr>selectedRowIds := selectedRowIds s \<union> set (displayedIds s),
       deselectedRowIds := deselectedRowIds s - set (displayedIds s)\<rparr>"
  "onSelectAllChange s False =
     s\<lparr>selectedRowIds := selectedRowIds s - set (displayedIds s),
       deselectedRowIds := deselectedRowIds s \<union> set (displayedIds s)\<rparr>"
  by (cases "artworks s";
      simp add: onSelectAllChange_def displayedIds_def Let_def selectAllRows_closed
        unselectAllRows_closed Diff_Int_self)+

text \<open>Both directions of the page-level handler keep the two sets apart.\<close>

lemma onSelectAllChange_disjoint:
  assumes "selectedRowIds s \<inter> deselectedRowIds s = {}"
  shows "selectedRowIds (onSelectAllChange s checked)
           \<inter> deselectedRowIds (onSelectAllChange s checked) = {}"
  using assms by (cases checked) (auto simp add: onSelectAllChange_closed)

lemma pageTwoSelectAll_eq:
  "onSelectAllChange pageTwoFifteen True =
     initialApp\<lparr>artworks := Some secondPage, totalRecords := 100, currentPage := 2,
                 customSelectionTotal := Finite 15, customTotalRef := Finite 15,
                 selectedRowIds := set secondPage\<rparr>"
  by (simp add: onSelectAllChange_closed displayedIds_def pageTwoFifteen_eq initialApp_def)

lemma pageTwoToggleEach_eq:
  "toggleEach pageTwoFifteen (displayedIds pageTwoFifteen) True =
     initialApp\<lparr>artworks := Some secondPage, totalRecords := 100, currentPage := 2,
                 customSelectionTotal := Finite 15, customTotalRef := Finite 15,
                 selectedRowIds := {16, 17, 18, 19, 20, 21, 22, 23, 24}\<rparr>"
  by (simp add: displayedIds_def pageTwoFifteen_eq secondPage_def initialApp_def
      toggleItem_def onRowSelect_def findIndex_def rowsPerPage_def insert_commute)

text \<open>
  Claim C3. The page-level event is meant to apply the single-item transition to every
  row of the page with that row's own position, so that ticking the header box does not
  add a row below the baseline to the include set, and unticking it does not add a row
  at or beyond the baseline to the exclude set. The handler never computes a position.
  With baseline 15 and the second page on display, the row with identifier 13 is at
  offset 0, position 12, below the baseline. Ticking the header box puts 13 into the
  include set, which the single-item transition applied to every row of the page does
  not; the include set is then the whole page and the header shows 27, where the
  single-item transitions give 24. With baseline 0 and the first page on display,
  ticking and unticking the header box puts identifier 1, at position 0, into the
  exclude set.
\<close>

theorem onSelectAllChange_ignores_position:
  "findIndex (\<lambda>a. a = 13) (displayedIds pageTwoFifteen) = Some 0
   \<and> numLess (Finite ((currentPage pageTwoFifteen - 1) * rowsPerPage + int 0))
              (customTotalRef pageTwoFifteen)
   \<and> 13 \<in> selectedRowIds (onSelectAllChange pageTwoFifteen True)
   \<and> 13 \<notin> selectedRowIds (toggleEach pageTwoFifteen (displayedIds pageTwoFifteen) True)
   \<and> selectedRowIds (onSelectAllChange pageTwoFifteen True) = set secondPage
   \<and> selectedCount (onSelectAllChange pageTwoFifteen True) = Finite 27
   \<and> selectedCount (toggleEach pageTwoFifteen (displayedIds pageTwoFifteen) True) = Finite 24
   \<and> customTotalRef (onSelectAllChange pageOne True) = Finite 0
   \<and> 1 \<in> deselectedRowIds (onSelectAllChange (onSelectAllChange pageOne True) False)"
proof -
  have idx: "findIndex (\<lambda>a. a = 13) (displayedIds pageTwoFifteen) = Some 0"
    by (simp add: displayedIds_def pageTwoFifteen_eq secondPage_def findIndex_def)
  have pos: "numLess (Finite ((currentPage pageTwoFifteen - 1) * rowsPerPage + int 0))
                     (customTotalRef pageTwoFifteen)"
    by (simp add: pageTwoFifteen_eq rowsPerPage_def)
  have inc: "selectedRowIds (onSelectAllChange pageTwoFifteen True) = set secondPage"
    by (simp add: pageTwoSelectAll_eq)
  have inc13: "13 \<in> selectedRowIds (onSelectAllChange pageTwoFifteen True)"
    by (simp add: inc secondPage_def)
  have each: "13 \<notin> selectedRowIds (toggleEach pageTwoFifteen (displayedIds pageTwoFifteen) True)"
    by (simp add: pageTwoToggleEach_eq)
  have count: "selectedCount (onSelectAllChange pageTwoFifteen True) = Finite 27"
    by (simp add: pageTwoSelectAll_eq selectedCount_def initialApp_def secondPage_def
        toNumber_exact)
  have count_each:
    "selectedCount (toggleEach pageTwoFifteen (displayedIds pageTwoFifteen) True) = Finite 24"
    by (simp add: pageTwoToggleEach_eq selectedCount_def initialApp_def toNumber_exact)
  have ref: "customTotalRef (onSelectAllChange pageOne True) = Finite 0"
    by (simp add: onSelectAllChange_closed pageOne_eq initialApp_def)
  have exc: "1 \<in> deselectedRowIds (onSelectAllChange (onSelectAllChange pageOne True) False)"
    by (simp add: onSelectAllChange_closed displayedIds_def pageOne_eq firstPage_def)
  from idx pos inc13 each inc count count_each ref exc show ?thesis
    by blast
qed

section \<open>Replacing the baseline\<close>

lemma parseInt_fraction: "parseInt ''3.5'' = Finite 3"
  by (simp add: parseInt_def isWhiteSpace_def digitValue_def toNumber_exact)

lemma parseInt_negative: "parseInt ''-3'' = Finite (- 3)"
  by (simp add: parseInt_def isWhiteSpace_def digitValue_def toNumber_exact)

lemma parseInt_letters: "parseInt ''abc'' = NaN"
  by (simp add: parseInt_def isWhiteSpace_def digitValue_def)

lemma parseInt_above_limit: "parseInt ''9007199254740993'' = Finite 9007199254740992"
  by (simp add: parseInt_def isWhiteSpace_def digitValue_def toNumber_above_limit)

text \<open>What \<open>parseInt\<close> returns is \<open>NaN\<close> or a rounded integer, hence a double.\<close>

lemma parseInt_range: "parseInt t = NaN \<or> (\<exists>z. parseInt t = toNumber z)"
  by (auto simp add: parseInt_def Let_def)

lemma parseInt_representable:
  assumes "parseInt t = Finite k"
  shows "toNumber k = Finite k"
proof -
  from parseInt_range [of t] assms obtain z where "toNumber z = Finite k"
    by auto
  then show ?thesis by (rule toNumber_idem)
qed

text \<open>\<open>parseInt\<close> reads the decimal numeral of \<open>n\<close> as the double nearest to \<open>n\<close>.\<close>

lemma digitValue_digitChar: "d < 10 \<Longrightarrow> digitValue (digitChar d) = Some d"
  by (simp add: digitValue_def digitChar_def)

lemma of_char_digitChar: "d < 10 \<Longrightarrow> (of_char (digitChar d) :: nat) = 48 + d"
  by (simp add: digitChar_def)

lemma digitChar_neq:
  assumes "d < 10" and "(of_char c :: nat) < 48 \<or> 57 < (of_char c :: nat)"
  shows "digitChar d \<noteq> c"
proof
  assume "digitChar d = c"
  then have "(of_char (digitChar d) :: nat) = of_char c" by simp
  with assms show False by (simp add: of_char_digitChar)
qed

lemma isWhiteSpace_digitChar: "d < 10 \<Longrightarrow> \<not> isWhiteSpace (digitChar d)"
  by (simp add: isWhiteSpace_def digitChar_neq)

lemma decimal_chars: "c \<in> set (decimal n) \<Longrightarrow> \<exists>d<10. c = digitChar d"
proof (induction n rule: decimal.induct)
  case (1 n)
  show ?case
  proof (cases "n < 10")
    case True
    with "1.prems" show ?thesis by (auto simp add: decimal.simps [of n])
  next
    case False
    have last: "\<exists>d<10. digitChar (n mod 10) = digitChar d"
      by (rule exI [of _ "n mod 10"]) simp
    from False "1.prems" have "c \<in> set (decimal (n div 10)) \<or> c = digitChar (n mod 10)"
      by (auto simp add: decimal.simps [of n])
    with False "1.IH" last show ?thesis
      by blast
  qed
qed

lemma decimal_nonempty: "decimal n \<noteq> []"
  by (subst decimal.simps) simp

lemma radixDigits_digits:
  assumes "\<forall>c \<in> set xs. \<exists>d<10. c = digitChar d"
  shows "radixDigits 10 (xs @ ys) = map (\<lambda>c. of_char c - 48) xs @ radixDigits 10 ys"
  using assms
proof (induction xs)
  case Nil
  then show ?case by simp
next
  case (Cons c xs)
  then obtain d where d: "d < 10" "c = digitChar d" by auto
  with Cons show ?case
    by (simp add: digitValue_digitChar of_char_digitChar)
qed

lemma decimal_value:
  "foldl (\<lambda>acc d. acc * 10 + d) 0 (map (\<lambda>c. of_char c - 48) (decimal n)) = n"
proof (induction n rule: decimal.induct)
  case (1 n)
  show ?case
  proof (cases "n < 10")
    case True
    then show ?thesis by (simp add: decimal.simps [of n] of_char_digitChar)
  next
    case False
    with "1.IH" show ?thesis
      by (simp add: decimal.simps [of n] of_char_digitChar)
  qed
qed

lemma decimal_hd: "\<exists>d<10. hd (decimal n) = digitChar d"
  using decimal_chars [of "hd (decimal n)" n] decimal_nonempty [of n] by simp

lemma decimal_not_hex: "take 2 (decimal n) \<noteq> ''0x'' \<and> take 2 (decimal n) \<noteq> ''0X''"
proof -
  have "CHR ''x'' \<notin> set (decimal n)"
  proof
    assume "CHR ''x'' \<in> set (decimal n)"
    then obtain d where d: "d < 10" "CHR ''x'' = digitChar d"
      using decimal_chars by blast
    from d(1) have "digitChar d \<noteq> CHR ''x''"
      by (rule digitChar_neq) simp
    with d(2) show False
      by simp
  qed
  moreover have "CHR ''X'' \<notin> set (decimal n)"
  proof
    assume "CHR ''X'' \<in> set (decimal n)"
    then obtain d where d: "d < 10" "CHR ''X'' = digitChar d"
      using decimal_chars by blast
    from d(1) have "digitChar d \<noteq> CHR ''X''"
      by (rule digitChar_neq) simp
    with d(2) show False
      by simp
  qed
  moreover have "set (take 2 (decimal n)) \<subseteq> set (decimal n)"
    by (rule set_take_subset)
  ultimately show ?thesis by auto
qed

lemma parseInt_decimal: "parseInt (decimal n) = toNumber (int n)"
proof -
  obtain d where d: "d < 10" "hd (decimal n) = digitChar d"
    using decimal_hd by blast
  have ne: "decimal n \<noteq> []" by (rule decimal_nonempty)
  have ws: "dropWhile isWhiteSpace (decimal n) = decimal n"
    using ne d by (cases "decimal n") (simp_all add: isWhiteSpace_digitChar)
  have sign: "hd (decimal n) \<noteq> CHR ''-''" "hd (decimal n) \<noteq> CHR ''+''"
    using d by (simp_all add: digitChar_neq)
  have digits: "radixDigits 10 (decimal n) = map (\<lambda>c. of_char c - 48) (decimal n)"
    using radixDigits_digits [of "decimal n" "[]"] decimal_chars [of _ n] by simp
  show ?thesis
    using ne sign decimal_not_hex [of n]
    by (simp add: parseInt_def ws digits decimal_value)
qed

lemma parseInt_decimal_exact:
  "int n < 2 ^ 53 \<Longrightarrow> parseInt (decimal n) = Finite (int n)"
  by (simp add: parseInt_decimal toNumber_exact)

lemma parseInt_decimal_huge: "parseInt (decimal (2 ^ 1024)) = Infinity"
proof -
  have "int (2 ^ 1024) = 2 ^ 1024"
    by (simp only: of_nat_power of_nat_numeral)
  then show ?thesis
    by (simp only: parseInt_decimal toNumber_huge)
qed

text \<open>The two outcomes of the handler.\<close>

lemma handleCustomRowSelection_accept:
  assumes "parseInt (selectCount s) = c" and "c \<noteq> NaN" and "\<not> numLess c (Finite 0)"
  shows "handleCustomRowSelection s =
           (s\<lparr>selectedRowIds := {}, deselectedRowIds := {}, customSelectionTotal := c,
               customTotalRef := c, selectCount := []\<rparr>, None)"
  using assms by (simp add: handleCustomRowSelection_def Let_def isNaN_def)

lemma handleCustomRowSelection_reject:
  assumes "parseInt (selectCount s) = c" and "c = NaN \<or> numLess c (Finite 0)"
  shows "handleCustomRowSelection s = (s, Some ''Please enter a valid number'')"
  using assms by (auto simp add: handleCustomRowSelection_def Let_def isNaN_def)

text \<open>
  Claim C5, as the code has it. The handler decides on \<open>parseInt\<close> of the text in the
  input field, which reads the leading integer of the text and rounds it to a double.
  When that is an integer \<open>k\<close> that is not negative, the baseline becomes \<open>k\<close>, both
  sets become empty and the count shown is \<open>k\<close>; when it is infinite, the same holds
  with an infinite baseline and count. When \<open>parseInt\<close> gives no number, or a negative
  one, the handler shows its message and returns the state it was given. The decimal
  numeral of a natural number \<open>n\<close> below \<open>2^53\<close> sets the baseline to \<open>n\<close>.
\<close>

theorem handleCustomRowSelection_cases:
  "(parseInt (selectCount s) = Finite k \<and> 0 \<le> k \<longrightarrow>
      snd (handleCustomRowSelection s) = None
      \<and> customSelectionTotal (fst (handleCustomRowSelection s)) = Finite k
      \<and> customTotalRef (fst (handleCustomRowSelection s)) = Finite k
      \<and> selectedRowIds (fst (handleCustomRowSelection s)) = {}
      \<and> deselectedRowIds (fst (handleCustomRowSelection s)) = {}
      \<and> selectedCount (fst (handleCustomRowSelection s)) = Finite k)
   \<and> (parseInt (selectCount s) = Infinity \<longrightarrow>
      snd (handleCustomRowSelection s) = None
      \<and> customSelectionTotal (fst (handleCustomRowSelection s)) = Infinity
      \<and> customTotalRef (fst (handleCustomRowSelection s)) = Infinity
      \<and> selectedRowIds (fst (handleCustomRowSelection s)) = {}
      \<and> deselectedRowIds (fst (handleCustomRowSelection s)) = {}
      \<and> selectedCount (fst (handleCustomRowSelection s)) = Infinity)
   \<and> (parseInt (selectCount s) = NaN \<or> parseInt (selectCount s) = NegInfinity
        \<or> (parseInt (selectCount s) = Finite k \<and> k < 0) \<longrightarrow>
      handleCustomRowSelection s = (s, Some ''Please enter a valid number''))
   \<and> (int n < 2 ^ 53 \<longrightarrow>
      snd (handleCustomRowSelection (s\<lparr>selectCount := decimal n\<rparr>)) = None
      \<and> customSelectionTotal (fst (handleCustomRowSelection (s\<lparr>selectCount := decimal n\<rparr>)))
          = Finite (int n)
      \<and> selectedRowIds (fst (handleCustomRowSelection (s\<lparr>selectCount := decimal n\<rparr>))) = {}
      \<and> deselectedRowIds (fst (handleCustomRowSelection (s\<lparr>selectCount := decimal n\<rparr>))) = {}
      \<and> selectedCount (fst (handleCustomRowSelection (s\<lparr>selectCount := decimal n\<rparr>)))
          = Finite (int n))"
proof -
  have accepted: "snd (handleCustomRowSelection s) = None
      \<and> customSelectionTotal (fst (handleCustomRowSelection s)) = Finite k
      \<and> customTotalRef (fst (handleCustomRowSelection s)) = Finite k
      \<and> selectedRowIds (fst (handleCustomRowSelection s)) = {}
      \<and> deselectedRowIds (fst (handleCustomRowSelection s)) = {}
      \<and> selectedCount (fst (handleCustomRowSelection s)) = Finite k"
    if a: "parseInt (selectCount s) = Finite k \<and> 0 \<le> k"
  proof -
    from a have rep: "toNumber k = Finite k" by (auto dest: parseInt_representable)
    from a have h: "handleCustomRowSelection s =
        (s\<lparr>selectedRowIds := {}, deselectedRowIds := {}, customSelectionTotal := Finite k,
            customTotalRef := Finite k, selectCount := []\<rparr>, None)"
      by (intro handleCustomRowSelection_accept) simp_all
    show ?thesis
      by (simp add: h selectedCount_def rep)
  qed
  have unbounded: "snd (handleCustomRowSelection s) = None
      \<and> customSelectionTotal (fst (handleCustomRowSelection s)) = Infinity
      \<and> customTotalRef (fst (handleCustomRowSelection s)) = Infinity
      \<and> selectedRowIds (fst (handleCustomRowSelection s)) = {}
      \<and> deselectedRowIds (fst (handleCustomRowSelection s)) = {}
      \<and> selectedCount (fst (handleCustomRowSelection s)) = Infinity"
    if a: "parseInt (selectCount s) = Infinity"
  proof -
    from a have h: "handleCustomRowSelection s =
        (s\<lparr>selectedRowIds := {}, deselectedRowIds := {}, customSelectionTotal := Infinity,
            customTotalRef := Infinity, selectCount := []\<rparr>, None)"
      by (intro handleCustomRowSelection_accept) simp_all
    show ?thesis
      by (simp add: h selectedCount_def)
  qed
  have rejected: "handleCustomRowSelection s = (s, Some ''Please enter a valid number'')"
    if "parseInt (selectCount s) = NaN \<or> parseInt (selectCount s) = NegInfinity
        \<or> (parseInt (selectCount s) = Finite k \<and> k < 0)"
    using that
    by (intro handleCustomRowSelection_reject [of s "parseInt (selectCount s)"]) auto
  have numeral: "snd (handleCustomRowSelection (s\<lparr>selectCount := decimal n\<rparr>)) = None
      \<and> customSelectionTotal (fst (handleCustomRowSelection (s\<lparr>selectCount := decimal n\<rparr>)))
          = Finite (int n)
      \<and> selectedRowIds (fst (handleCustomRowSelection (s\<lparr>selectCount := decimal n\<rparr>))) = {}
      \<and> deselectedRowIds (fst (handleCustomRowSelection (s\<lparr>selectCount := decimal n\<rparr>))) = {}
      \<and> selectedCount (fst (handleCustomRowSelection (s\<lparr>selectCount := decimal n\<rparr>)))
          = Finite (int n)"
    if n: "int n < 2 ^ 53"
  proof -
    let ?s = "s\<lparr>selectCount := decimal n\<rparr>"
    have p: "parseInt (selectCount ?s) = Finite (int n)"
      using n by (simp add: parseInt_decimal_exact)
    then have rep: "toNumber (int n) = Finite (int n)" by (rule parseInt_representable)
    from p have h: "handleCustomRowSelection ?s =
        (?s\<lparr>selectedRowIds := {}, deselectedRowIds := {},
            customSelectionTotal := Finite (int n), customTotalRef := Finite (int n),
            selectCount := []\<rparr>, None)"
      by (intro handleCustomRowSelection_accept) simp_all
    show ?thesis
      by (simp add: h selectedCount_def rep)
  qed
  from accepted unbounded rejected numeral show ?thesis
    by blast
qed

lemma selectCount_typed: "selectCount (s\<lparr>selectCount := t\<rparr>) = t"
  by simp

theorem handleCustomRowSelection_cases_witness:
  "parseInt (selectCount (pageOneUnselected\<lparr>selectCount := ''15''\<rparr>)) = Finite 15
   \<and> (0::int) \<le> 15
   \<and> snd (handleCustomRowSelection (pageOneUnselected\<lparr>selectCount := ''15''\<rparr>)) = None
   \<and> customSelectionTotal
        (fst (handleCustomRowSelection (pageOneUnselected\<lparr>selectCount := ''15''\<rparr>)))
       = Finite 15
   \<and> deselectedRowIds
        (fst (handleCustomRowSelection (pageOneUnselected\<lparr>selectCount := ''15''\<rparr>))) = {}
   \<and> selectedCount
        (fst (handleCustomRowSelection (pageOneUnselected\<lparr>selectCount := ''15''\<rparr>)))
       = Finite 15
   \<and> parseInt (selectCount (pageOne\<lparr>selectCount := decimal (2 ^ 1024)\<rparr>)) = Infinity
   \<and> snd (handleCustomRowSelection (pageOne\<lparr>selectCount := decimal (2 ^ 1024)\<rparr>)) = None
   \<and> customSelectionTotal
        (fst (handleCustomRowSelection (pageOne\<lparr>selectCount := decimal (2 ^ 1024)\<rparr>)))
       = Infinity
   \<and> selectedCount
        (fst (handleCustomRowSelection (pageOne\<lparr>selectCount := decimal (2 ^ 1024)\<rparr>)))
       = Infinity
   \<and> parseInt (selectCount (pageOneFifteen\<lparr>selectCount := ''-3''\<rparr>)) = Finite (- 3)
   \<and> handleCustomRowSelection (pageOneFifteen\<lparr>selectCount := ''-3''\<rparr>)
       = (pageOneFifteen\<lparr>selectCount := ''-3''\<rparr>, Some ''Please enter a valid number'')
   \<and> parseInt (selectCount (pageOneFifteen\<lparr>selectCount := ''abc''\<rparr>)) = NaN
   \<and> handleCustomRowSelection (pageOneFifteen\<lparr>selectCount := ''abc''\<rparr>)
       = (pageOneFifteen\<lparr>selectCount := ''abc''\<rparr>, Some ''Please enter a valid number'')
   \<and> int 7 < 2 ^ 53
   \<and> customSelectionTotal
        (fst (handleCustomRowSelection (pageOne\<lparr>selectCount := decimal 7\<rparr>))) = Finite 7"
proof -
  have p15: "parseInt (selectCount (pageOneUnselected\<lparr>selectCount := ''15''\<rparr>)) = Finite 15"
    by (simp only: selectCount_typed parseInt_15)
  have pinf: "parseInt (selectCount (pageOne\<lparr>selectCount := decimal (2 ^ 1024)\<rparr>)) = Infinity"
    by (simp only: selectCount_typed parseInt_decimal_huge)
  have pneg: "parseInt (selectCount (pageOneFifteen\<lparr>selectCount := ''-3''\<rparr>)) = Finite (- 3)"
    by (simp only: selectCount_typed parseInt_negative)
  have pabc: "parseInt (selectCount (pageOneFifteen\<lparr>selectCount := ''abc''\<rparr>)) = NaN"
    by (simp only: selectCount_typed parseInt_letters)
  have small: "int 7 < 2 ^ 53"
    by simp
  have nonneg: "(0::int) \<le> 15" and neg: "(- 3::int) < 0"
    by simp_all
  from handleCustomRowSelection_cases
         [of "pageOneUnselected\<lparr>selectCount := ''15''\<rparr>" 15 0, THEN conjunct1]
       p15 nonneg
  have a: "snd (handleCustomRowSelection (pageOneUnselected\<lparr>selectCount := ''15''\<rparr>)) = None
   \<and> customSelectionTotal
        (fst (handleCustomRowSelection (pageOneUnselected\<lparr>selectCount := ''15''\<rparr>)))
       = Finite 15
   \<and> deselectedRowIds
        (fst (handleCustomRowSelection (pageOneUnselected\<lparr>selectCount := ''15''\<rparr>))) = {}
   \<and> selectedCount
        (fst (handleCustomRowSelection (pageOneUnselected\<lparr>selectCount := ''15''\<rparr>)))
       = Finite 15"
    by blast
  from handleCustomRowSelection_cases
         [of "pageOne\<lparr>selectCount := decimal (2 ^ 1024)\<rparr>" 0 0,
          THEN conjunct2, THEN conjunct1]
       pinf
  have b: "snd (handleCustomRowSelection (pageOne\<lparr>selectCount := decimal (2 ^ 1024)\<rparr>)) = None
   \<and> customSelectionTotal
        (fst (handleCustomRowSelection (pageOne\<lparr>selectCount := decimal (2 ^ 1024)\<rparr>)))
       = Infinity
   \<and> selectedCount
        (fst (handleCustomRowSelection (pageOne\<lparr>selectCount := decimal (2 ^ 1024)\<rparr>)))
       = Infinity"
    by blast
  from handleCustomRowSelection_cases
         [of "pageOneFifteen\<lparr>selectCount := ''-3''\<rparr>" "- 3" 0,
          THEN conjunct2, THEN conjunct2, THEN conjunct1]
       pneg neg
  have c: "handleCustomRowSelection (pageOneFifteen\<lparr>selectCount := ''-3''\<rparr>)
       = (pageOneFifteen\<lparr>selectCount := ''-3''\<rparr>, Some ''Please enter a valid number'')"
    by blast
  from handleCustomRowSelection_cases
         [of "pageOneFifteen\<lparr>selectCount := ''abc''\<rparr>" 0 0,
          THEN conjunct2, THEN conjunct2, THEN conjunct1]
       pabc
  have d: "handleCustomRowSelection (pageOneFifteen\<lparr>selectCount := ''abc''\<rparr>)
       = (pageOneFifteen\<lparr>selectCount := ''abc''\<rparr>, Some ''Please enter a valid number'')"
    by blast
  from handleCustomRowSelection_cases
         [of pageOne 0 7, THEN conjunct2, THEN conjunct2, THEN conjunct2]
       small
  have e: "customSelectionTotal
        (fst (handleCustomRowSelection (pageOne\<lparr>selectCount := decimal 7\<rparr>))) = Finite 7"
    by simp
  from p15 nonneg a pinf b pneg c pabc d small e show ?thesis
    by (intro conjI) (erule conjunct1 conjunct2 | assumption
        | (drule conjunct2, erule conjunct1) | (drule conjunct2, drule conjunct2, erule conjunct1)
        | (drule conjunct2, drule conjunct2, erule conjunct2))+
qed

text \<open>
  The text \<open>3.5\<close> is not an integer, yet the handler shows no message and moves the
  baseline of the first page's state from 0 to 3. The text \<open>9007199254740993\<close> is the
  numeral of an integer, and the baseline becomes 9007199254740992.
\<close>

theorem handleCustomRowSelection_fraction_counterexample:
  "customSelectionTotal (pageOne\<lparr>selectCount := ''3.5''\<rparr>) = Finite 0
   \<and> snd (handleCustomRowSelection (pageOne\<lparr>selectCount := ''3.5''\<rparr>)) = None
   \<and> customSelectionTotal (fst (handleCustomRowSelection (pageOne\<lparr>selectCount := ''3.5''\<rparr>)))
       = Finite 3
   \<and> snd (handleCustomRowSelection (pageOne\<lparr>selectCount := ''9007199254740993''\<rparr>)) = None
   \<and> customSelectionTotal
        (fst (handleCustomRowSelection (pageOne\<lparr>selectCount := ''9007199254740993''\<rparr>)))
       = Finite 9007199254740992"
  by (simp add: handleCustomRowSelection_def Let_def isNaN_def parseInt_fraction
      parseInt_above_limit pageOne_eq initialApp_def)

section \<open>A failed fetch\<close>



section \<open>Sessions\<close>

lemma run_snoc: "run s (events @ [e]) = step (run s events) e"
  by (simp add: run_def)

text \<open>An unmounted component stays as it is.\<close>

lemma run_unmounted: "artworks s = None \<Longrightarrow> run s events = s"
  by (induction events rule: rev_induct) (simp_all add: run_snoc step_def, simp add: run_def)

text \<open>Every event keeps the ref equal to the hook, the baseline a non-negative double or
  infinite, and the two sets finite; so the handlers, which read the ref, and the
  queries, which read the hook, always see the same baseline.\<close>

lemma handleCustomRowSelection_wellFormed:
  assumes "wellFormed s"
  shows "wellFormed (fst (handleCustomRowSelection s))"
proof (cases "parseInt (selectCount s)")
  case NaN
  then have "handleCustomRowSelection s = (s, Some ''Please enter a valid number'')"
    by (intro handleCustomRowSelection_reject [of s NaN]) simp_all
  with assms show ?thesis by simp
next
  case NegInfinity
  then have "handleCustomRowSelection s = (s, Some ''Please enter a valid number'')"
    by (intro handleCustomRowSelection_reject [of s NegInfinity]) simp_all
  with assms show ?thesis by simp
next
  case (Finite k)
  show ?thesis
  proof (cases "k < 0")
    case True
    with Finite have "handleCustomRowSelection s = (s, Some ''Please enter a valid number'')"
      by (intro handleCustomRowSelection_reject [of s "Finite k"]) simp_all
    with assms show ?thesis by simp
  next
    case False
    from Finite have rep: "toNumber k = Finite k" by (rule parseInt_representable)
    from Finite False have "handleCustomRowSelection s =
        (s\<lparr>selectedRowIds := {}, deselectedRowIds := {}, customSelectionTotal := Finite k,
            customTotalRef := Finite k, selectCount := []\<rparr>, None)"
      by (intro handleCustomRowSelection_accept) simp_all
    with False rep show ?thesis by (simp add: wellFormed_def)
  qed
next
  case Infinity
  then have "handleCustomRowSelection s =
      (s\<lparr>selectedRowIds := {}, deselectedRowIds := {}, customSelectionTotal := Infinity,
          customTotalRef := Infinity, selectCount := []\<rparr>, None)"
    by (intro handleCustomRowSelection_accept) simp_all
  then show ?thesis by (simp add: wellFormed_def)
qed

lemma dispatch_wellFormed:
  assumes "wellFormed s"
  shows "wellFormed (dispatch s e)"
proof (cases e)
  case (RowSelect rowId)
  with assms show ?thesis
    by (simp add: wellFormed_def onRowSelect_def Let_def split: option.splits)
next
  case (RowUnselect rowId)
  with assms show ?thesis
    by (simp add: wellFormed_def onRowUnselect_def Let_def split: option.splits)
next
  case (SelectionChange evalue)
  show ?thesis
  proof (cases "artworks s")
    case None
    with assms SelectionChange show ?thesis
      by (simp add: onSelectionChange_unmounted)
  next
    case (Some rows)
    with assms SelectionChange show ?thesis
      by (simp add: wellFormed_def onSelectionChange_closed [OF Some] finite_autoRows)
  qed
next
  case (SelectAllChange checked)
  with assms show ?thesis
    by (cases checked) (simp_all add: wellFormed_def onSelectAllChange_closed)
next
  case (CustomRowSelection input)
  from assms have "wellFormed (s\<lparr>selectCount := input\<rparr>)"
    by (simp add: wellFormed_def)
  then have "wellFormed (fst (handleCustomRowSelection (s\<lparr>selectCount := input\<rparr>)))"
    by (rule handleCustomRowSelection_wellFormed)
  with CustomRowSelection show ?thesis by simp
next
  case (GoToPage page r)
  with assms show ?thesis
    by (cases r) (simp_all add: wellFormed_def goToPage_def fetchArtworks_def Let_def)
qed

lemma step_wellFormed: "wellFormed s \<Longrightarrow> wellFormed (step s e)"
  by (simp add: step_def dispatch_wellFormed)

lemma run_wellFormed: "wellFormed (run initialApp events)"
proof (induction events rule: rev_induct)
  case Nil
  show ?case by (simp add: run_def wellFormed_def initialApp_def toNumber_exact)
next
  case (snoc e events)
  then show ?case by (simp add: run_snoc step_wellFormed)
qed

subsection \<open>The scenarios of the specification\<close>

text \<open>Scenario A: baseline 0, first page, row 5 ticked.\<close>

lemma scenario_A:
  "selectedRowIds (run initialApp [GoToPage 1 (Response firstPage 100), RowSelect 5]) = {5}
   \<and> selectedCount (run initialApp [GoToPage 1 (Response firstPage 100), RowSelect 5])
       = Finite 1"
  by (simp add: run_def step_def goToPage_def fetchArtworks_def initialApp_def
      onRowSelect_def findIndex_def firstPage_def rowsPerPage_def selectedCount_def
      toNumber_exact)

text \<open>Scenario B: baseline 15 selects the whole first page and the first three rows of
  the second.\<close>

lemma scenario_B:
  "getSelectedArtworks pageOneFifteen = Some firstPage
   \<and> getSelectedArtworks pageTwoFifteen = Some [13, 14, 15]"
  by (simp add: pageOneFifteen_eq pageTwoFifteen_eq getSelectedArtworks_def firstPage_def
      secondPage_def initialApp_def isRowSelected_def rowsPerPage_def)

text \<open>Scenario C: then the row at offset 0 of the second page is unticked.\<close>

lemma scenario_C:
  "deselectedRowIds (onRowUnselect pageTwoFifteen 13) = {13}
   \<and> selectedCount (onRowUnselect pageTwoFifteen 13) = Finite 14"
  by (simp add: pageTwoFifteen_eq onRowUnselect_def findIndex_def secondPage_def
      initialApp_def rowsPerPage_def selectedCount_def toNumber_exact)

lemma parseInt_zero: "parseInt ''0'' = Finite 0"
  by (simp add: parseInt_def isWhiteSpace_def digitValue_def toNumber_exact)

text \<open>Scenario D: then the baseline is replaced by 0.\<close>

lemma scenario_D:
  "selectedRowIds (step (onRowUnselect pageTwoFifteen 13) (CustomRowSelection ''0'')) = {}
   \<and> deselectedRowIds (step (onRowUnselect pageTwoFifteen 13) (CustomRowSelection ''0'')) = {}
   \<and> selectedCount (step (onRowUnselect pageTwoFifteen 13) (CustomRowSelection ''0''))
       = Finite 0
   \<and> isRowSelected (step (onRowUnselect pageTwoFifteen 13) (CustomRowSelection ''0'')) 13 0
       = False"
  by (simp add: step_def handleCustomRowSelection_def Let_def isNaN_def parseInt_zero
      selectedCount_def isRowSelected_def pageTwoFifteen_eq onRowUnselect_def findIndex_def
      secondPage_def initialApp_def rowsPerPage_def toNumber_exact)

end
